theory Spec2Isabelle
  imports Complex_Main
begin

section \<open>Model-construction helpers of \<^verbatim>\<open>spacy/_ml.py\<close>\<close>

text \<open>
  Arrays of the numeric backend are modelled as nested lists, outermost axis first: a
  vector is a \<open>real list\<close>, a matrix the list of its rows, and so on. Array elements
  (32-bit floats in the program) are idealised as real numbers: rounding, overflow and
  NaN are outside this model. Random draws of \<^verbatim>\<open>numpy.random\<close> are explicit arguments
  of the functions that consume them.
\<close>

datatype error =
    IndexError_E066 int  \<comment> \<open>\<^verbatim>\<open>IndexError(Errors.E066.format(value=idx))\<close>, raised by \<^verbatim>\<open>get_col\<close>\<close>
  | IndexError           \<comment> \<open>an index out of bounds, raised by the array backend or a list\<close>
  | ValueError           \<comment> \<open>incompatible shapes or an invalid argument, raised by the array backend\<close>

subsection \<open>Cosine similarity\<close>

definition linalg_norm :: "real list \<Rightarrow> real" where
  "linalg_norm v = sqrt (sum_list (map (\<lambda>x. x * x) v))"

definition dot :: "real list \<Rightarrow> real list \<Rightarrow> error + real" where
  "dot a b = (if length a = length b then Inr (sum_list (map2 (*) a b)) else Inl ValueError)"

definition cosine :: "real list \<Rightarrow> real list \<Rightarrow> error + real" where
  "cosine vec1 vec2 =
     (let norm1 = linalg_norm vec1;
          norm2 = linalg_norm vec2
      in if norm1 = 0 \<or> norm2 = 0 then Inr 0
         else (case dot vec1 vec2 of
                 Inl e \<Rightarrow> Inl e
               | Inr d \<Rightarrow> Inr (d / (norm1 * norm2))))"

lemma linalg_norm_replicate_zero: "linalg_norm (replicate n 0) = 0"
  by (induction n) (simp_all add: linalg_norm_def)

text \<open>
  Claim C9. \<^verbatim>\<open>cosine\<close> returns 0 whenever the norm of either vector is exactly 0;
  otherwise (for two vectors of one length, so that their dot product exists) it returns
  the dot product divided by the product of the norms. In particular the cosine of any
  vector with a zero vector, on either side, is 0.
\<close>

theorem cosine_zero_norm_or_normalised_dot:
  "(linalg_norm a = 0 \<or> linalg_norm b = 0 \<longrightarrow> cosine a b = Inr 0) \<and>
   (linalg_norm a \<noteq> 0 \<and> linalg_norm b \<noteq> 0 \<and> length a = length b \<longrightarrow>
      cosine a b = Inr (sum_list (map2 (*) a b) / (linalg_norm a * linalg_norm b))) \<and>
   cosine a (replicate n 0) = Inr 0 \<and>
   cosine (replicate n 0) a = Inr 0"
  by (simp add: cosine_def dot_def Let_def linalg_norm_replicate_zero)

theorem cosine_zero_norm_or_normalised_dot_witness:
  "(linalg_norm [0, 0] = 0 \<or> linalg_norm [3, 4] = 0) \<and> cosine [0, 0] [3, 4] = Inr 0 \<and>
   linalg_norm [3, 4] \<noteq> 0 \<and> linalg_norm [4, 3] \<noteq> 0 \<and> length [3, 4 :: real] = length [4, 3 :: real] \<and>
   cosine [3, 4] [4, 3] = Inr (sum_list (map2 (*) [3, 4] [4, 3]) / (linalg_norm [3, 4] * linalg_norm [4, 3]))"
  using cosine_zero_norm_or_normalised_dot [of "[0, 0]" "[3, 4]" 0]
        cosine_zero_norm_or_normalised_dot [of "[3, 4]" "[4, 3]" 0]
  by (simp add: linalg_norm_def)

subsection \<open>Lexemes and the random-word sampler\<close>

text \<open>
  A lexeme of the vocabulary, with the attributes this file reads or writes: its text, its
  identifier \<^verbatim>\<open>orth\<close>, its smoothed log-probability \<^verbatim>\<open>prob\<close> and its \<^verbatim>\<open>rank\<close>.
\<close>

record lexeme =
  lex_text :: string
  orth :: nat
  prob :: real
  rank :: nat

record RandomWords =
  "words" :: "string list"
  probs :: "real list"
  cache :: "nat list"

definition RandomWords_init :: "lexeme list \<Rightarrow> RandomWords" where
  "RandomWords_init vocab =
     (let ws = map lex_text (filter (\<lambda>lex. prob lex \<noteq> 0) vocab);
          ps = map prob (filter (\<lambda>lex. prob lex \<noteq> 0) vocab);
          ws = take 10000 ws;
          ps = take 10000 ps;
          ps = map exp ps;
          ps = map (\<lambda>p. p / sum_list ps) ps
      in \<lparr>words = ws, probs = ps, cache = []\<rparr>)"

text \<open>
  \<^verbatim>\<open>numpy.random.choice(a, size, p=p)\<close>: \<open>size\<close> indices below \<open>a\<close>, drawn with the
  probabilities \<open>p\<close>. It raises \<^verbatim>\<open>ValueError\<close> when \<open>a\<close> is 0, when \<open>p\<close> has not \<open>a\<close>
  entries, a negative entry or a sum other than 1. The indices drawn are the argument
  \<open>draw\<close>; \<open>choice_draw a size draw\<close> says that \<open>draw\<close> is a possible outcome.
\<close>

definition random_choice :: "nat \<Rightarrow> nat \<Rightarrow> real list \<Rightarrow> nat list \<Rightarrow> error + nat list" where
  "random_choice a sz p draw =
     (if a = 0 \<or> length p \<noteq> a \<or> (\<exists>x \<in> set p. x < 0) \<or> sum_list p \<noteq> 1 then Inl ValueError
      else Inr draw)"

definition choice_draw :: "nat \<Rightarrow> nat \<Rightarrow> nat list \<Rightarrow> bool" where
  "choice_draw a sz draw \<longleftrightarrow> length draw = sz \<and> (\<forall>i \<in> set draw. i < a)"

text \<open>
  \<^verbatim>\<open>_RandomWords.next\<close>: refill the empty cache, pop its last index, return the word
  there. The result is paired with the sampler after the call.
\<close>

definition RandomWords_next :: "RandomWords \<Rightarrow> nat list \<Rightarrow> (error + string) \<times> RandomWords" where
  "RandomWords_next self draw =
     (case (if cache self = []
            then (case random_choice (length (words self)) 10000 (probs self) draw of
                    Inl e \<Rightarrow> Inl e
                  | Inr d \<Rightarrow> Inr (cache self @ d))
            else Inr (cache self)) of
        Inl e \<Rightarrow> (Inl e, self)
      | Inr c \<Rightarrow>
          if c = [] then (Inl IndexError, self\<lparr>cache := c\<rparr>)
          else (let index = last c;
                    self' = self\<lparr>cache := butlast c\<rparr>
                in if index < length (words self) then (Inr (words self ! index), self')
                   else (Inl IndexError, self')))"

text \<open>Successive calls of \<^verbatim>\<open>next\<close> on one sampler, one draw per call.\<close>

fun RandomWords_nexts :: "RandomWords \<Rightarrow> nat list list \<Rightarrow> (error + string) list \<times> RandomWords" where
  "RandomWords_nexts self [] = ([], self)"
| "RandomWords_nexts self (d # ds) =
     (case RandomWords_next self d of
        (r, self') \<Rightarrow> (case RandomWords_nexts self' ds of (rs, self'') \<Rightarrow> (r # rs, self'')))"

lemma RandomWords_init_fields:
  "words (RandomWords_init vocab) = take 10000 (map lex_text (filter (\<lambda>lex. prob lex \<noteq> 0) vocab))"
  "probs (RandomWords_init vocab) =
     map (\<lambda>p. p / sum_list (map exp (take 10000 (map prob (filter (\<lambda>lex. prob lex \<noteq> 0) vocab)))))
         (map exp (take 10000 (map prob (filter (\<lambda>lex. prob lex \<noteq> 0) vocab))))"
  "cache (RandomWords_init vocab) = []"
  by (simp_all add: RandomWords_init_def Let_def)

lemma sum_list_divide: "sum_list (map (\<lambda>p. p / s) (es :: real list)) = sum_list es / s"
  by (induction es) (simp_all add: add_divide_distrib)

lemma sum_list_exp_pos: "ps \<noteq> [] \<Longrightarrow> 0 < sum_list (map exp (ps :: real list))"
proof (induction ps)
  case Nil
  then show ?case by simp
next
  case (Cons p ps)
  have "0 \<le> sum_list (map exp ps)"
    by (rule sum_list_nonneg) auto
  moreover have "0 < exp p" by simp
  ultimately have "0 < exp p + sum_list (map exp ps)" by (rule add_pos_nonneg [rotated])
  then show ?case by simp
qed

lemma sum_list_exp_nonneg: "0 \<le> sum_list (map exp (ps :: real list))"
  by (rule sum_list_nonneg) auto

lemma normalised_sum_one:
  "ps \<noteq> [] \<Longrightarrow> sum_list (map (\<lambda>p. p / sum_list (map exp ps)) (map exp (ps :: real list))) = 1"
  using sum_list_exp_pos [of ps] sum_list_divide [of "sum_list (map exp ps)" "map exp ps"] by simp

text \<open>
  What \<^verbatim>\<open>next\<close> relies on and keeps: a sampler with words, a probability for each that
  \<^verbatim>\<open>numpy.random.choice\<close> accepts, and cached indices within the word list.
\<close>

definition sampler_inv :: "RandomWords \<Rightarrow> bool" where
  "sampler_inv rw \<longleftrightarrow>
     words rw \<noteq> [] \<and> length (probs rw) = length (words rw) \<and> (\<forall>x \<in> set (probs rw). 0 \<le> x) \<and>
     sum_list (probs rw) = 1 \<and> (\<forall>i \<in> set (cache rw). i < length (words rw))"

lemma RandomWords_init_inv:
  assumes "\<exists>lex \<in> set vocab. prob lex \<noteq> 0"
  shows "sampler_inv (RandomWords_init vocab)"
proof -
  let ?f = "filter (\<lambda>lex. prob lex \<noteq> 0) vocab"
  let ?ps = "take 10000 (map prob ?f)"
  from assms have ne: "?f \<noteq> []"
    by (simp add: filter_empty_conv)
  then have ps: "?ps \<noteq> []" by (cases ?f) simp_all
  have w: "words (RandomWords_init vocab) \<noteq> []"
    using ne by (cases ?f) (simp_all add: RandomWords_init_fields)
  have l: "length (probs (RandomWords_init vocab)) = length (words (RandomWords_init vocab))"
    by (simp add: RandomWords_init_fields)
  have s: "sum_list (probs (RandomWords_init vocab)) = 1"
    unfolding RandomWords_init_fields using normalised_sum_one [OF ps] .
  have n: "\<forall>x \<in> set (probs (RandomWords_init vocab)). 0 \<le> x"
    using sum_list_exp_nonneg [of ?ps] by (auto simp: RandomWords_init_fields)
  show ?thesis
    unfolding sampler_inv_def using w l s n by (simp add: RandomWords_init_fields)
qed

lemma RandomWords_next_inv:
  assumes "sampler_inv rw" and "choice_draw (length (words rw)) 10000 draw"
  shows "\<exists>w \<in> set (words rw). fst (RandomWords_next rw draw) = Inr w"
    and "sampler_inv (snd (RandomWords_next rw draw))"
    and "words (snd (RandomWords_next rw draw)) = words rw"
proof -
  define c where "c = (if cache rw = [] then draw else cache rw)"
  have rc: "random_choice (length (words rw)) 10000 (probs rw) draw = Inr draw"
    using assms(1) by (auto simp: sampler_inv_def random_choice_def)
  have cne: "c \<noteq> []"
    using assms(2) by (auto simp: c_def choice_draw_def)
  have call: "\<forall>i \<in> set c. i < length (words rw)"
    using assms by (auto simp: c_def choice_draw_def sampler_inv_def)
  then have lst: "last c < length (words rw)"
    using cne last_in_set by blast
  have eq: "RandomWords_next rw draw = (Inr (words rw ! last c), rw\<lparr>cache := butlast c\<rparr>)"
  proof (cases "cache rw = []")
    case True
    with cne lst rc show ?thesis by (simp add: RandomWords_next_def c_def Let_def)
  next
    case False
    with cne lst show ?thesis by (simp add: RandomWords_next_def c_def Let_def)
  qed
  show "\<exists>w \<in> set (words rw). fst (RandomWords_next rw draw) = Inr w"
    using eq lst by simp
  show "words (snd (RandomWords_next rw draw)) = words rw"
    using eq by simp
  have "\<forall>i \<in> set (butlast c). i < length (words rw)"
    using call by (meson in_set_butlastD)
  then show "sampler_inv (snd (RandomWords_next rw draw))"
    using eq assms(1) by (simp add: sampler_inv_def)
qed

lemma RandomWords_nexts_inv:
  "sampler_inv rw \<Longrightarrow> \<forall>d \<in> set draws. choice_draw (length (words rw)) 10000 d \<Longrightarrow>
   length (fst (RandomWords_nexts rw draws)) = length draws \<and>
   (\<forall>r \<in> set (fst (RandomWords_nexts rw draws)). \<exists>w \<in> set (words rw). r = Inr w)"
proof (induction draws arbitrary: rw)
  case Nil
  then show ?case by simp
next
  case (Cons d ds)
  obtain r rw' where n: "RandomWords_next rw d = (r, rw')" by (cases "RandomWords_next rw d")
  obtain rs rw'' where ns: "RandomWords_nexts rw' ds = (rs, rw'')" by (cases "RandomWords_nexts rw' ds")
  from Cons.prems have d: "choice_draw (length (words rw)) 10000 d" by simp
  from RandomWords_next_inv [OF Cons.prems(1) d] n
  have r: "\<exists>w \<in> set (words rw). r = Inr w" and inv': "sampler_inv rw'" and w': "words rw' = words rw"
    by simp_all
  from Cons.prems(2) w' have "\<forall>d \<in> set ds. choice_draw (length (words rw')) 10000 d" by simp
  from Cons.IH [OF inv' this] ns w'
  have "length rs = length ds \<and> (\<forall>r \<in> set rs. \<exists>w \<in> set (words rw). r = Inr w)" by simp
  with r n ns show ?case by simp
qed

text \<open>
  Claim C5, amended. For every vocabulary with at least one lexeme of nonzero \<^verbatim>\<open>prob\<close>,
  a freshly constructed sampler holds at most 10000 words, each the text of a lexeme of
  nonzero \<^verbatim>\<open>prob\<close>; it stores one probability per word and these sum to 1; and every
  call of \<^verbatim>\<open>next\<close> in a sequence of any length, the cache being refilled whenever it is
  empty, returns a word of the stored word list. (The draws are possible outcomes of
  \<^verbatim>\<open>numpy.random.choice\<close>.)
\<close>

theorem RandomWords_invariants:
  assumes "\<exists>lex \<in> set vocab. prob lex \<noteq> 0"
    and "\<forall>d \<in> set draws. choice_draw (length (words (RandomWords_init vocab))) 10000 d"
  shows "length (words (RandomWords_init vocab)) \<le> 10000 \<and>
         (\<forall>w \<in> set (words (RandomWords_init vocab)). \<exists>lex \<in> set vocab. lex_text lex = w \<and> prob lex \<noteq> 0) \<and>
         length (probs (RandomWords_init vocab)) = length (words (RandomWords_init vocab)) \<and>
         sum_list (probs (RandomWords_init vocab)) = 1 \<and>
         length (fst (RandomWords_nexts (RandomWords_init vocab) draws)) = length draws \<and>
         (\<forall>r \<in> set (fst (RandomWords_nexts (RandomWords_init vocab) draws)).
            \<exists>w \<in> set (words (RandomWords_init vocab)). r = Inr w)"
proof -
  have inv: "sampler_inv (RandomWords_init vocab)"
    using assms(1) by (rule RandomWords_init_inv)
  have a: "length (words (RandomWords_init vocab)) \<le> 10000"
    by (simp add: RandomWords_init_fields)
  have b: "\<forall>w \<in> set (words (RandomWords_init vocab)). \<exists>lex \<in> set vocab. lex_text lex = w \<and> prob lex \<noteq> 0"
  proof
    fix w assume "w \<in> set (words (RandomWords_init vocab))"
    then have "w \<in> set (map lex_text (filter (\<lambda>lex. prob lex \<noteq> 0) vocab))"
      unfolding RandomWords_init_fields by (rule in_set_takeD)
    then show "\<exists>lex \<in> set vocab. lex_text lex = w \<and> prob lex \<noteq> 0" by auto
  qed
  from inv have c: "length (probs (RandomWords_init vocab)) = length (words (RandomWords_init vocab))"
    and d: "sum_list (probs (RandomWords_init vocab)) = 1"
    by (simp_all add: sampler_inv_def)
  from RandomWords_nexts_inv [OF inv assms(2)] a b c d show ?thesis by simp
qed

theorem RandomWords_invariants_witness:
  "(\<exists>lex \<in> set [\<lparr>lex_text = ''the'', orth = 7, prob = -1, rank = 0\<rparr>]. prob lex \<noteq> 0) \<and>
   choice_draw (length (words (RandomWords_init [\<lparr>lex_text = ''the'', orth = 7, prob = -1, rank = 0\<rparr>])))
     10000 (replicate 10000 0) \<and>
   length (words (RandomWords_init [\<lparr>lex_text = ''the'', orth = 7, prob = -1, rank = 0\<rparr>])) = 1 \<and>
   sum_list (probs (RandomWords_init [\<lparr>lex_text = ''the'', orth = 7, prob = -1, rank = 0\<rparr>])) = 1 \<and>
   length (fst (RandomWords_nexts (RandomWords_init [\<lparr>lex_text = ''the'', orth = 7, prob = -1, rank = 0\<rparr>])
                  [replicate 10000 0, replicate 10000 0])) = 2 \<and>
   set (fst (RandomWords_nexts (RandomWords_init [\<lparr>lex_text = ''the'', orth = 7, prob = -1, rank = 0\<rparr>])
               [replicate 10000 0, replicate 10000 0])) = {Inr ''the''}"
proof -
  let ?vocab = "[\<lparr>lex_text = ''the'', orth = 7, prob = -1, rank = 0\<rparr>]"
  let ?draws = "[replicate 10000 (0 :: nat), replicate 10000 0]"
  have h1: "\<exists>lex \<in> set ?vocab. prob lex \<noteq> 0" by simp
  have w: "words (RandomWords_init ?vocab) = [''the'']"
    by (simp add: RandomWords_init_fields)
  have d: "choice_draw (length (words (RandomWords_init ?vocab))) 10000 (replicate 10000 0)"
    by (simp add: w choice_draw_def)
  then have h2: "\<forall>d \<in> set ?draws. choice_draw (length (words (RandomWords_init ?vocab))) 10000 d"
    by simp
  note T = RandomWords_invariants [OF h1 h2]
  from T have len: "length (fst (RandomWords_nexts (RandomWords_init ?vocab) ?draws)) = 2"
    by simp
  from T have "\<forall>r \<in> set (fst (RandomWords_nexts (RandomWords_init ?vocab) ?draws)). r = Inr ''the''"
    by (simp add: w)
  with len have "set (fst (RandomWords_nexts (RandomWords_init ?vocab) ?draws)) = {Inr ''the''}"
    by (cases "fst (RandomWords_nexts (RandomWords_init ?vocab) ?draws)") auto
  with T h1 d len w show ?thesis by simp
qed

text \<open>
  The claim as stated, for every vocabulary, fails where no lexeme has a nonzero
  \<^verbatim>\<open>prob\<close>: the sampler is empty, its probabilities sum to 0, and \<^verbatim>\<open>next\<close> raises.
\<close>

theorem RandomWords_empty_counterexample:
  "sum_list (probs (RandomWords_init [\<lparr>lex_text = ''the'', orth = 7, prob = 0, rank = 0\<rparr>])) \<noteq> 1 \<and>
   fst (RandomWords_next (RandomWords_init [\<lparr>lex_text = ''the'', orth = 7, prob = 0, rank = 0\<rparr>]) (replicate 10000 0))
     = Inl ValueError"
  by (simp add: RandomWords_init_fields RandomWords_next_def random_choice_def)

subsection \<open>Word replacement of the masked language model\<close>

definition replace_word :: "string \<Rightarrow> RandomWords \<Rightarrow> string \<Rightarrow> real \<Rightarrow> nat list \<Rightarrow> (error + string) \<times> RandomWords" where
  "replace_word word random_words mask_text roll draw =
     (if roll < 0.8 then (Inr mask_text, random_words)
      else if roll < 0.9 then RandomWords_next random_words draw
      else (Inr word, random_words))"

text \<open>
  Claim C4. With the default marker \<^verbatim>\<open>[MASK]\<close>: a roll below 0.8 gives the marker; a roll
  in [0.8, 0.9) gives what the sampler's \<^verbatim>\<open>next\<close> returns, which is a word of the sampler's
  word list, drawn by \<^verbatim>\<open>numpy.random.choice\<close>, for a sampler that holds words (as one
  built from a vocabulary with a lexeme of nonzero \<^verbatim>\<open>prob\<close> does, after any number of
  calls); any other roll gives the word itself. So the rolls of [0, 1) split at 0.8 and
  0.9 into parts of 80%, 10% and 10%.
\<close>

theorem replace_word_partition:
  "(roll < 0.8 \<longrightarrow> replace_word word rw ''[MASK]'' roll draw = (Inr ''[MASK]'', rw)) \<and>
   (0.8 \<le> roll \<and> roll < 0.9 \<longrightarrow> replace_word word rw ''[MASK]'' roll draw = RandomWords_next rw draw) \<and>
   (0.8 \<le> roll \<and> roll < 0.9 \<and> sampler_inv rw \<and> choice_draw (length (words rw)) 10000 draw \<longrightarrow>
      (\<exists>w \<in> set (words rw). fst (replace_word word rw ''[MASK]'' roll draw) = Inr w) \<and>
      words (snd (replace_word word rw ''[MASK]'' roll draw)) = words rw \<and>
      sampler_inv (snd (replace_word word rw ''[MASK]'' roll draw))) \<and>
   (0.9 \<le> roll \<longrightarrow> replace_word word rw ''[MASK]'' roll draw = (Inr word, rw))"
proof -
  have a: "roll < 0.8 \<longrightarrow> replace_word word rw ''[MASK]'' roll draw = (Inr ''[MASK]'', rw)"
    by (simp add: replace_word_def)
  have b: "0.8 \<le> roll \<and> roll < 0.9 \<longrightarrow> replace_word word rw ''[MASK]'' roll draw = RandomWords_next rw draw"
    by (simp add: replace_word_def)
  have c: "0.8 \<le> roll \<and> roll < 0.9 \<and> sampler_inv rw \<and> choice_draw (length (words rw)) 10000 draw \<longrightarrow>
      (\<exists>w \<in> set (words rw). fst (replace_word word rw ''[MASK]'' roll draw) = Inr w) \<and>
      words (snd (replace_word word rw ''[MASK]'' roll draw)) = words rw \<and>
      sampler_inv (snd (replace_word word rw ''[MASK]'' roll draw))"
  proof (intro impI)
    assume h: "0.8 \<le> roll \<and> roll < 0.9 \<and> sampler_inv rw \<and> choice_draw (length (words rw)) 10000 draw"
    then have eq: "replace_word word rw ''[MASK]'' roll draw = RandomWords_next rw draw"
      using b by blast
    from h have inv: "sampler_inv rw" and dr: "choice_draw (length (words rw)) 10000 draw"
      by blast+
    show "(\<exists>w \<in> set (words rw). fst (replace_word word rw ''[MASK]'' roll draw) = Inr w) \<and>
      words (snd (replace_word word rw ''[MASK]'' roll draw)) = words rw \<and>
      sampler_inv (snd (replace_word word rw ''[MASK]'' roll draw))"
      unfolding eq using RandomWords_next_inv [OF inv dr] by blast
  qed
  have d: "0.9 \<le> roll \<longrightarrow> replace_word word rw ''[MASK]'' roll draw = (Inr word, rw)"
    by (simp add: replace_word_def)
  from a b c d show ?thesis by blast
qed

theorem replace_word_partition_witness:
  "(0.5 :: real) < 0.8 \<and>
   replace_word ''cat'' (RandomWords_init [\<lparr>lex_text = ''the'', orth = 7, prob = -1, rank = 0\<rparr>])
       ''[MASK]'' 0.5 (replicate 10000 0)
     = (Inr ''[MASK]'', RandomWords_init [\<lparr>lex_text = ''the'', orth = 7, prob = -1, rank = 0\<rparr>]) \<and>
   (0.8 :: real) \<le> 0.85 \<and> (0.85 :: real) < 0.9 \<and>
   sampler_inv (RandomWords_init [\<lparr>lex_text = ''the'', orth = 7, prob = -1, rank = 0\<rparr>]) \<and>
   choice_draw (length (words (RandomWords_init [\<lparr>lex_text = ''the'', orth = 7, prob = -1, rank = 0\<rparr>])))
     10000 (replicate 10000 0) \<and>
   fst (replace_word ''cat'' (RandomWords_init [\<lparr>lex_text = ''the'', orth = 7, prob = -1, rank = 0\<rparr>])
          ''[MASK]'' 0.85 (replicate 10000 0)) = Inr ''the'' \<and>
   (0.9 :: real) \<le> 0.95 \<and>
   replace_word ''cat'' (RandomWords_init [\<lparr>lex_text = ''the'', orth = 7, prob = -1, rank = 0\<rparr>])
       ''[MASK]'' 0.95 (replicate 10000 0)
     = (Inr ''cat'', RandomWords_init [\<lparr>lex_text = ''the'', orth = 7, prob = -1, rank = 0\<rparr>])"
proof -
  let ?rw = "RandomWords_init [\<lparr>lex_text = ''the'', orth = 7, prob = -1, rank = 0\<rparr>]"
  let ?draw = "replicate 10000 (0 :: nat)"
  have w: "words ?rw = [''the'']"
    by (simp add: RandomWords_init_fields)
  have inv: "sampler_inv ?rw"
    by (rule RandomWords_init_inv) simp
  have dr: "choice_draw (length (words ?rw)) 10000 ?draw"
    by (simp add: w choice_draw_def)
  have lo: "replace_word ''cat'' ?rw ''[MASK]'' 0.5 ?draw = (Inr ''[MASK]'', ?rw)"
    using replace_word_partition [where roll = "0.5" and word = "''cat''" and rw = ?rw and draw = ?draw]
    by simp
  have r: "(0.8 :: real) \<le> 0.85 \<and> (0.85 :: real) < 0.9 \<and> sampler_inv ?rw \<and>
      choice_draw (length (words ?rw)) 10000 ?draw"
    using inv dr by simp
  have "\<exists>w \<in> set (words ?rw). fst (replace_word ''cat'' ?rw ''[MASK]'' 0.85 ?draw) = Inr w"
    using replace_word_partition [where roll = "0.85" and word = "''cat''" and rw = ?rw and draw = ?draw] r
    by blast
  then have mid: "fst (replace_word ''cat'' ?rw ''[MASK]'' 0.85 ?draw) = Inr ''the''"
    by (simp add: w)
  have hi: "replace_word ''cat'' ?rw ''[MASK]'' 0.95 ?draw = (Inr ''cat'', ?rw)"
    using replace_word_partition [where roll = "0.95" and word = "''cat''" and rw = ?rw and draw = ?draw]
    by simp
  from lo mid hi inv dr show ?thesis by simp
qed

subsection \<open>Masking of documents\<close>

text \<open>
  A token with its text and trailing whitespace; a document is the list of its tokens
  (all documents of a batch share one vocabulary, which the masking only passes on).
  \<^verbatim>\<open>Doc(vocab, words=words, spaces=spaces)\<close> builds a document from words and flags.
\<close>

record token =
  tok_text :: string
  whitespace :: string

type_synonym doc = "token list"

definition Doc :: "string list \<Rightarrow> bool list \<Rightarrow> error + doc" where
  "Doc ws spaces =
     (if length ws = length spaces
      then Inr (map2 (\<lambda>w s. \<lparr>tok_text = w, whitespace = (if s then '' '' else [])\<rparr>) ws spaces)
      else Inl ValueError)"

text \<open>
  The random numbers one call of \<^verbatim>\<open>_apply_mask\<close> consumes: the uniform draw of token
  \<open>i\<close> of the batch, and for that token the roll of \<^verbatim>\<open>_replace_word\<close> and the indices a
  refill of the sampler's cache would draw.
\<close>

record rng =
  uniform :: "nat \<Rightarrow> real"
  rolls :: "nat \<Rightarrow> real"
  choices :: "nat \<Rightarrow> nat list"

fun mask_words :: "bool list \<Rightarrow> rng \<Rightarrow> RandomWords \<Rightarrow> nat \<Rightarrow> token list \<Rightarrow>
    error + (string list \<times> nat \<times> RandomWords)" where
  "mask_words msk rnd rw i [] = Inr ([], i, rw)"
| "mask_words msk rnd rw i (t # ts) =
     (if length msk \<le> i then Inl IndexError
      else (case (if \<not> msk ! i then replace_word (tok_text t) rw ''[MASK]'' (rolls rnd i) (choices rnd i)
                  else (Inr (tok_text t), rw)) of
              (Inl e, rw') \<Rightarrow> Inl e
            | (Inr word, rw') \<Rightarrow>
                (case mask_words msk rnd rw' (i + 1) ts of
                   Inl e \<Rightarrow> Inl e
                 | Inr (ws, j, rw'') \<Rightarrow> Inr (word # ws, j, rw''))))"

fun mask_docs :: "bool list \<Rightarrow> rng \<Rightarrow> RandomWords \<Rightarrow> nat \<Rightarrow> doc list \<Rightarrow>
    error + (doc list \<times> RandomWords)" where
  "mask_docs msk rnd rw i [] = Inr ([], rw)"
| "mask_docs msk rnd rw i (d # ds) =
     (case mask_words msk rnd rw i d of
        Inl e \<Rightarrow> Inl e
      | Inr (ws, j, rw') \<Rightarrow>
          (case Doc ws (map (\<lambda>w. whitespace w \<noteq> []) d) of
             Inl e \<Rightarrow> Inl e
           | Inr md \<Rightarrow>
               (case mask_docs msk rnd rw' j ds of
                  Inl e \<Rightarrow> Inl e
                | Inr (mds, rw'') \<Rightarrow> Inr (md # mds, rw''))))"

definition apply_mask :: "doc list \<Rightarrow> RandomWords \<Rightarrow> real \<Rightarrow> rng \<Rightarrow>
    error + (bool list \<times> doc list \<times> RandomWords)" where
  "apply_mask docs random_words mask_prob rnd =
     (let N = sum_list (map length docs);
          msk = map (\<lambda>i. mask_prob \<le> uniform rnd i) [0..<N]
      in case mask_docs msk rnd random_words 0 docs of
           Inl e \<Rightarrow> Inl e
         | Inr (masked_docs, rw') \<Rightarrow> Inr (msk, masked_docs, rw'))"

subsection \<open>The masked language model wrapper\<close>

text \<open>
  A layer is its \<^verbatim>\<open>begin_update\<close>: from an input and a dropout rate to an output and a
  backward function. The output gradient is a matrix with one row per token.
  \<^verbatim>\<open>d_output *= 1 - mask\<close> multiplies row \<open>i\<close> by \<open>1 - mask[i]\<close>, the mask being a
  column of \<open>N\<close> flags; numpy broadcasts a single flag over all rows and raises when the
  numbers of rows differ otherwise.
\<close>

definition mlm_backward :: "bool list \<Rightarrow> (real list list \<Rightarrow> 'dx) \<Rightarrow> real list list \<Rightarrow> error + 'dx" where
  "mlm_backward msk backprop d_output =
     (if length d_output = length msk
      then Inr (backprop (map2 (\<lambda>row m. map (\<lambda>x. x * (1 - of_bool m)) row) d_output msk))
      else if length msk = 1
      then Inr (backprop (map (map (\<lambda>x. x * (1 - of_bool (hd msk)))) d_output))
      else Inl ValueError)"

definition mlm_forward :: "(doc list \<Rightarrow> real \<Rightarrow> 'y \<times> (real list list \<Rightarrow> 'dx)) \<Rightarrow> real \<Rightarrow>
    RandomWords \<Rightarrow> rng \<Rightarrow> doc list \<Rightarrow> real \<Rightarrow>
    error + ('y \<times> (real list list \<Rightarrow> error + 'dx) \<times> RandomWords)" where
  "mlm_forward model mask_prob random_words rnd docs drop_rate =
     (case apply_mask docs random_words mask_prob rnd of
        Inl e \<Rightarrow> Inl e
      | Inr (msk, masked_docs, rw') \<Rightarrow>
          (case model masked_docs drop_rate of
             (output, backprop) \<Rightarrow> Inr (output, mlm_backward msk backprop, rw')))"

text \<open>
  \<^verbatim>\<open>masked_language_model\<close> builds the sampler once and returns the wrapped forward
  function, which threads the sampler through its calls.
\<close>

definition masked_language_model :: "lexeme list \<Rightarrow> (doc list \<Rightarrow> real \<Rightarrow> 'y \<times> (real list list \<Rightarrow> 'dx)) \<Rightarrow>
    real \<Rightarrow> RandomWords \<times> (RandomWords \<Rightarrow> rng \<Rightarrow> doc list \<Rightarrow> real \<Rightarrow>
      error + ('y \<times> (real list list \<Rightarrow> error + 'dx) \<times> RandomWords))" where
  "masked_language_model vocab model mask_prob =
     (RandomWords_init vocab, mlm_forward model mask_prob)"

lemma apply_mask_mask:
  "apply_mask docs rw mask_prob rnd = Inr (msk, masked, rw') \<Longrightarrow>
   msk = map (\<lambda>i. mask_prob \<le> uniform rnd i) [0..<sum_list (map length docs)]"
  by (auto simp: apply_mask_def Let_def split: sum.splits prod.splits)

lemma mlm_backward_rows:
  assumes "length d_output = length msk"
  shows "mlm_backward msk backprop d_output =
           Inr (backprop (map (\<lambda>i. if msk ! i then map (\<lambda>x. 0) (d_output ! i) else d_output ! i)
                              [0..<length d_output]))"
proof -
  have "map2 (\<lambda>row m. map (\<lambda>x. x * (1 - of_bool m)) row) d_output msk =
        map (\<lambda>i. if msk ! i then map (\<lambda>x. 0) (d_output ! i) else d_output ! i) [0..<length d_output]"
    using assms by (intro nth_equalityI) (auto simp: map_idI)
  with assms show ?thesis by (simp add: mlm_backward_def)
qed

text \<open>
  Claim C3. When the forward pass of the wrapper that \<^verbatim>\<open>masked_language_model\<close> returns
  succeeds, its mask holds for every token \<open>i\<close> of
  the batch whether the uniform draw of \<open>i\<close> was at least \<^verbatim>\<open>mask_prob\<close> (the token was
  kept), and the backward function hands the wrapped model's backward function the
  output gradient with the row of every kept token zeroed and the row of every
  corrupted token unchanged.
\<close>

theorem mlm_backward_gates_gradient:
  assumes "snd (masked_language_model vocab model mask_prob) rw rnd docs drop_rate = Inr (output, backward, rw')"
    and "length d_output = sum_list (map length docs)"
  shows "\<exists>msk masked d.
           apply_mask docs rw mask_prob rnd = Inr (msk, masked, rw') \<and>
           output = fst (model masked drop_rate) \<and>
           length msk = sum_list (map length docs) \<and>
           (\<forall>i < length msk. msk ! i \<longleftrightarrow> mask_prob \<le> uniform rnd i) \<and>
           backward d_output = Inr (snd (model masked drop_rate) d) \<and>
           length d = length d_output \<and>
           (\<forall>i < length d_output.
              d ! i = (if msk ! i then map (\<lambda>x. 0) (d_output ! i) else d_output ! i))"
proof -
  from assms(1) obtain msk masked where
    am: "apply_mask docs rw mask_prob rnd = Inr (msk, masked, rw')"
    and out: "output = fst (model masked drop_rate)"
    and bw: "backward = mlm_backward msk (snd (model masked drop_rate))"
    by (auto simp: masked_language_model_def mlm_forward_def split: sum.splits prod.splits)
  have msk: "msk = map (\<lambda>i. mask_prob \<le> uniform rnd i) [0..<sum_list (map length docs)]"
    using am by (rule apply_mask_mask)
  then have len: "length d_output = length msk"
    using assms(2) by simp
  let ?d = "map (\<lambda>i. if msk ! i then map (\<lambda>x. 0) (d_output ! i) else d_output ! i) [0..<length d_output]"
  have "backward d_output = Inr (snd (model masked drop_rate) ?d)"
    unfolding bw using len by (rule mlm_backward_rows)
  moreover have "length ?d = length d_output" by simp
  moreover have "\<forall>i < length d_output. ?d ! i = (if msk ! i then map (\<lambda>x. 0) (d_output ! i) else d_output ! i)"
    by simp
  moreover have "length msk = sum_list (map length docs)"
    using msk by simp
  moreover have "\<forall>i < length msk. msk ! i \<longleftrightarrow> mask_prob \<le> uniform rnd i"
    using msk by simp
  ultimately show ?thesis using am out by blast
qed

theorem mlm_backward_gates_gradient_witness:
  "snd (masked_language_model [] (\<lambda>ds dr. (map length ds, \<lambda>g. g)) 0.15)
        (fst (masked_language_model [] (\<lambda>ds dr. (map length ds, \<lambda>g. g)) 0.15))
        \<lparr>uniform = (\<lambda>i. if i = 0 then 0.05 else 0.5), rolls = (\<lambda>i. 0.5), choices = (\<lambda>i. [])\<rparr>
        [[\<lparr>tok_text = ''a'', whitespace = '' ''\<rparr>, \<lparr>tok_text = ''b'', whitespace = []\<rparr>]] 0
      = Inr ([2::nat], mlm_backward [False, True] (\<lambda>g. g), RandomWords_init []) \<and>
   length [[1, 2], [3, 4 :: real]] =
     sum_list (map length [[\<lparr>tok_text = ''a'', whitespace = '' ''\<rparr>, \<lparr>tok_text = ''b'', whitespace = []\<rparr>]]) \<and>
   mlm_backward [False, True] (\<lambda>g. g) [[1, 2], [3, 4]] = Inr [[1, 2], [0, 0]]"
proof -
  let ?model = "\<lambda>(ds :: doc list) (dr :: real). (map length ds, \<lambda>g :: real list list. g)"
  let ?rnd = "\<lparr>uniform = (\<lambda>i. if i = 0 then 0.05 else 0.5), rolls = (\<lambda>i. 0.5), choices = (\<lambda>i. [])\<rparr>"
  let ?docs = "[[\<lparr>tok_text = ''a'', whitespace = '' ''\<rparr>, \<lparr>tok_text = ''b'', whitespace = []\<rparr>]]"
  let ?g = "[[1, 2], [3, 4 :: real]]"
  have h1: "snd (masked_language_model [] ?model 0.15) (fst (masked_language_model [] ?model 0.15)) ?rnd ?docs 0
      = Inr ([2::nat], mlm_backward [False, True] (\<lambda>g. g), RandomWords_init [])"
    by (simp add: masked_language_model_def mlm_forward_def apply_mask_def Let_def replace_word_def Doc_def upt_rec)
  have h2: "length ?g = sum_list (map length ?docs)"
    by simp
  from mlm_backward_gates_gradient [OF h1 h2]
  obtain msk masked d where
    am: "apply_mask ?docs (fst (masked_language_model [] ?model 0.15)) 0.15 ?rnd = Inr (msk, masked, RandomWords_init [])"
    and bw: "mlm_backward [False, True] (\<lambda>g. g) ?g = Inr (snd (?model masked 0) d)"
    and len: "length d = length ?g"
    and rows: "\<forall>i < length ?g. d ! i = (if msk ! i then map (\<lambda>x. 0) (?g ! i) else ?g ! i)"
    by blast
  have msk: "msk = [False, True]"
    using apply_mask_mask [OF am] by (simp add: upt_rec)
  from rows have "d ! 0 = [1, 2]" and "d ! 1 = [0, 0]"
    by (simp_all add: msk)
  with len have "d = [[1, 2], [0, 0]]"
    by (intro nth_equalityI) (auto simp: less_Suc_eq numeral_2_eq_2)
  with bw h1 h2 show ?thesis by simp
qed

subsection \<open>Linking vectors to models\<close>

record vectors =
  name :: "string option"
  key2row :: "nat \<rightharpoonup> nat"
  data :: "real list list"

record vocab =
  lexemes :: "lexeme list"
  vectors :: vectors

text \<open>
  What the function touches outside the vocabulary: the registry
  \<^verbatim>\<open>thinc.extra.load_nlp.VECTORS\<close>, keyed by device and name, and the warnings printed
  (each with the shape of the data).
\<close>

record globals =
  VECTORS :: "(string \<times> string) \<rightharpoonup> real list list"
  printed :: "(nat \<times> nat) list"

definition VECTORS_KEY :: string where
  "VECTORS_KEY = ''spacy_pretrained_vectors''"

definition data_shape :: "real list list \<Rightarrow> nat \<times> nat" where
  "data_shape d = (length d, (case d of [] \<Rightarrow> 0 | r # _ \<Rightarrow> length r))"

definition link_vectors_to_models :: "string \<Rightarrow> vocab \<Rightarrow> globals \<Rightarrow> vocab \<times> globals" where
  "link_vectors_to_models device vocab g =
     (let vecs = vectors vocab;
          (vecs, g) =
            (case name vecs of
               None \<Rightarrow> (vecs\<lparr>name := Some VECTORS_KEY\<rparr>,
                         if concat (data vecs) \<noteq> [] then g\<lparr>printed := printed g @ [data_shape (data vecs)]\<rparr> else g)
             | Some _ \<Rightarrow> (vecs, g));
          lexs = map (\<lambda>word. case key2row vecs (orth word) of
                                Some row \<Rightarrow> word\<lparr>rank := row\<rparr>
                              | None \<Rightarrow> word\<lparr>rank := 0\<rparr>) (lexemes vocab);
          g = (case name vecs of
                 Some n \<Rightarrow> g\<lparr>VECTORS := (VECTORS g)((device, n) \<mapsto> data vecs)\<rparr>
               | None \<Rightarrow> g)
      in (vocab\<lparr>lexemes := lexs, vectors := vecs\<rparr>, g))"

lemma link_vectors_fields:
  "lexemes (fst (link_vectors_to_models device vocab g)) =
     map (\<lambda>word. word\<lparr>rank := (case key2row (vectors vocab) (orth word) of Some row \<Rightarrow> row | None \<Rightarrow> 0)\<rparr>)
         (lexemes vocab)"
  "key2row (vectors (fst (link_vectors_to_models device vocab g))) = key2row (vectors vocab)"
  "data (vectors (fst (link_vectors_to_models device vocab g))) = data (vectors vocab)"
  "name (vectors (fst (link_vectors_to_models device vocab g))) =
     (case name (vectors vocab) of None \<Rightarrow> Some VECTORS_KEY | Some n \<Rightarrow> Some n)"
  by (auto simp: link_vectors_to_models_def Let_def split: option.splits prod.splits
           intro!: map_cong)

text \<open>
  Claim C6. After \<^verbatim>\<open>link_vectors_to_models\<close> every lexeme of the vocabulary, in place and
  with its identifier unchanged, has as rank the row of its identifier in \<^verbatim>\<open>key2row\<close>, or
  0 when the identifier is absent. The name of the vector table becomes the constant key
  only when it was unset; a name already set stays, so linking again does not change it.
\<close>

theorem link_vectors_ranks_and_name:
  "length (lexemes (fst (link_vectors_to_models device vocab g))) = length (lexemes vocab) \<and>
   (\<forall>i < length (lexemes vocab).
      orth (lexemes (fst (link_vectors_to_models device vocab g)) ! i) = orth (lexemes vocab ! i) \<and>
      rank (lexemes (fst (link_vectors_to_models device vocab g)) ! i) =
        (case key2row (vectors vocab) (orth (lexemes vocab ! i)) of Some row \<Rightarrow> row | None \<Rightarrow> 0)) \<and>
   (\<forall>lex \<in> set (lexemes (fst (link_vectors_to_models device vocab g))).
      rank lex = (case key2row (vectors (fst (link_vectors_to_models device vocab g))) (orth lex) of
                    Some row \<Rightarrow> row | None \<Rightarrow> 0)) \<and>
   name (vectors (fst (link_vectors_to_models device vocab g))) =
     (case name (vectors vocab) of None \<Rightarrow> Some VECTORS_KEY | Some n \<Rightarrow> Some n) \<and>
   (name (vectors vocab) \<noteq> None \<longrightarrow>
      name (vectors (fst (link_vectors_to_models device vocab g))) = name (vectors vocab)) \<and>
   name (vectors (fst (link_vectors_to_models device' (fst (link_vectors_to_models device vocab g)) g'))) =
     name (vectors (fst (link_vectors_to_models device vocab g)))"
  by (auto simp: link_vectors_fields split: option.splits)

theorem link_vectors_ranks_and_name_witness:
  "(0 :: nat) < length (lexemes \<lparr>lexemes = [\<lparr>lex_text = ''the'', orth = 7, prob = -1, rank = 0\<rparr>,
                    \<lparr>lex_text = ''cat'', orth = 9, prob = -2, rank = 5\<rparr>],
         vectors = \<lparr>name = Some ''en_vectors'', key2row = [7 \<mapsto> 3], data = [[1, 2]]\<rparr>\<rparr>) \<and>
   name (vectors \<lparr>lexemes = [\<lparr>lex_text = ''the'', orth = 7, prob = -1, rank = 0\<rparr>,
                    \<lparr>lex_text = ''cat'', orth = 9, prob = -2, rank = 5\<rparr>],
         vectors = \<lparr>name = Some ''en_vectors'', key2row = [7 \<mapsto> 3], data = [[1, 2]]\<rparr>\<rparr>) \<noteq> None \<and>
   map rank (lexemes (fst (link_vectors_to_models ''cpu''
       \<lparr>lexemes = [\<lparr>lex_text = ''the'', orth = 7, prob = -1, rank = 0\<rparr>,
                    \<lparr>lex_text = ''cat'', orth = 9, prob = -2, rank = 5\<rparr>],
         vectors = \<lparr>name = Some ''en_vectors'', key2row = [7 \<mapsto> 3], data = [[1, 2]]\<rparr>\<rparr>
       \<lparr>VECTORS = Map.empty, printed = []\<rparr>))) = [3, 0] \<and>
   name (vectors (fst (link_vectors_to_models ''cpu''
       \<lparr>lexemes = [\<lparr>lex_text = ''the'', orth = 7, prob = -1, rank = 0\<rparr>,
                    \<lparr>lex_text = ''cat'', orth = 9, prob = -2, rank = 5\<rparr>],
         vectors = \<lparr>name = Some ''en_vectors'', key2row = [7 \<mapsto> 3], data = [[1, 2]]\<rparr>\<rparr>
       \<lparr>VECTORS = Map.empty, printed = []\<rparr>))) = Some ''en_vectors''"
  using link_vectors_ranks_and_name [of "''cpu''"
       "\<lparr>lexemes = [\<lparr>lex_text = ''the'', orth = 7, prob = -1, rank = 0\<rparr>,
                    \<lparr>lex_text = ''cat'', orth = 9, prob = -2, rank = 5\<rparr>],
         vectors = \<lparr>name = Some ''en_vectors'', key2row = [7 \<mapsto> 3], data = [[1, 2]]\<rparr>\<rparr>"
       "\<lparr>VECTORS = Map.empty, printed = []\<rparr>" "''cpu''" "\<lparr>VECTORS = Map.empty, printed = []\<rparr>"]
  by (simp add: link_vectors_to_models_def)

subsection \<open>Flattening batches of sequences\<close>

text \<open>
  A batch is a list of sequences, a sequence the list of its rows; the rows of one batch
  have one type, so the shape of a sequence is its length.
\<close>

text \<open>
  Modelled from the spec: \<^verbatim>\<open>ops.flatten\<close> of the array backend, which belongs to the
  external framework. It concatenates the sequences into one contiguous array, optionally
  pad-delimited: \<open>pad\<close> zero rows stand before every sequence and after the last one.
\<close>

definition ops_flatten :: "'a::zero list list \<Rightarrow> nat \<Rightarrow> 'a list" where
  "ops_flatten seqs pad = concat (map (\<lambda>s. replicate pad 0 @ s) seqs) @ replicate pad 0"

text \<open>
  Modelled from the spec: \<^verbatim>\<open>ops.unflatten\<close> of the array backend. It un-concatenates a
  flat array into sequences of the recorded lengths, skipping \<open>pad\<close> rows before each.
\<close>

fun ops_unflatten :: "'a list \<Rightarrow> nat list \<Rightarrow> nat \<Rightarrow> 'a list list" where
  "ops_unflatten X [] pad = []"
| "ops_unflatten X (l # ls) pad = take l (drop pad X) # ops_unflatten (drop (pad + l) X) ls pad"

definition flatten_add_lengths :: "'a::zero list list \<Rightarrow> nat \<Rightarrow> real \<Rightarrow>
    ('a list \<times> nat list) \<times> ('b list \<Rightarrow> 'b list list)" where
  "flatten_add_lengths seqs pad drop_rate =
     (let lengths = map length seqs;
          finish_update = (\<lambda>d_X. ops_unflatten d_X lengths pad);
          X = ops_flatten seqs pad
      in ((X, lengths), finish_update))"

definition flatten :: "'a::zero list list \<Rightarrow> real \<Rightarrow> 'a list \<times> ('b list \<Rightarrow> 'b list list)" where
  "flatten seqs drop_rate =
     (let lengths = map length seqs;
          finish_update = (\<lambda>d_X. ops_unflatten d_X lengths 0);
          X = ops_flatten seqs 0
      in (X, finish_update))"

lemma length_ops_flatten:
  "length (ops_flatten seqs pad) = sum_list (map length seqs) + pad * (length seqs + 1)"
  by (induction seqs) (simp_all add: ops_flatten_def)

lemma ops_unflatten_lengths:
  "sum_list ls + pad * length ls \<le> length X \<Longrightarrow> map length (ops_unflatten X ls pad) = ls"
proof (induction ls arbitrary: X)
  case Nil
  then show ?case by simp
next
  case (Cons l ls)
  then have "sum_list ls + pad * length ls \<le> length (drop (pad + l) X)" by simp
  from Cons.IH [OF this] Cons.prems show ?case by simp
qed

lemma ops_unflatten_append:
  "ops_unflatten (concat (map (\<lambda>s. replicate pad z @ s) seqs) @ rest) (map length seqs) pad = seqs"
  by (induction seqs) simp_all

lemma ops_unflatten_flatten: "ops_unflatten (ops_flatten seqs pad) (map length seqs) pad = seqs"
  unfolding ops_flatten_def by (rule ops_unflatten_append)

lemma concat_ops_unflatten:
  "length X = sum_list ls \<Longrightarrow> concat (ops_unflatten X ls 0) = X"
proof (induction ls arbitrary: X)
  case Nil
  then show ?case by simp
next
  case (Cons l ls)
  then have "length (drop l X) = sum_list ls" by simp
  from Cons.IH [OF this] show ?case by simp
qed

text \<open>
  Claim C7. For every batch of sequences, the backward function recorded by \<^verbatim>\<open>flatten\<close>,
  applied to a flat gradient as long as the flattened array, returns sequences of the
  original lengths (their concatenation being the gradient), from the lengths recorded at
  forward time; the same holds for \<^verbatim>\<open>_flatten_add_lengths\<close> at every pad width, which
  also returns the recorded lengths; un-flattening the flattened array gives back the
  batch; and at pad width 0 the flattened array is as long as the sum of the lengths.
\<close>

theorem flatten_unflatten_round_trip:
  "(length d_X = length (fst (flatten seqs drop_rate)) \<longrightarrow>
      map length (snd (flatten seqs drop_rate) d_X) = map length seqs \<and>
      concat (snd (flatten seqs drop_rate) d_X) = d_X) \<and>
   snd (flatten seqs drop_rate) (fst (flatten seqs drop_rate)) = seqs \<and>
   length (fst (flatten seqs drop_rate)) = sum_list (map length seqs) \<and>
   snd (fst (flatten_add_lengths seqs pad drop_rate)) = map length seqs \<and>
   (length d_X' = length (fst (fst (flatten_add_lengths seqs pad drop_rate))) \<longrightarrow>
      map length (snd (flatten_add_lengths seqs pad drop_rate) d_X') = map length seqs) \<and>
   snd (flatten_add_lengths seqs pad drop_rate) (fst (fst (flatten_add_lengths seqs pad drop_rate))) = seqs \<and>
   length (fst (fst (flatten_add_lengths seqs 0 drop_rate))) = sum_list (map length seqs)"
proof -
  have a: "length d_X = length (fst (flatten seqs drop_rate)) \<longrightarrow>
      map length (snd (flatten seqs drop_rate) d_X) = map length seqs \<and>
      concat (snd (flatten seqs drop_rate) d_X) = d_X"
    by (simp add: flatten_def Let_def length_ops_flatten ops_unflatten_lengths concat_ops_unflatten)
  have b: "snd (flatten seqs drop_rate) (fst (flatten seqs drop_rate)) = seqs"
    by (simp add: flatten_def Let_def ops_unflatten_flatten)
  have c: "length (fst (flatten seqs drop_rate)) = sum_list (map length seqs)"
    by (simp add: flatten_def Let_def length_ops_flatten)
  have d: "snd (fst (flatten_add_lengths seqs pad drop_rate)) = map length seqs"
    by (simp add: flatten_add_lengths_def Let_def)
  have e: "length d_X' = length (fst (fst (flatten_add_lengths seqs pad drop_rate))) \<longrightarrow>
      map length (snd (flatten_add_lengths seqs pad drop_rate) d_X') = map length seqs"
    by (simp add: flatten_add_lengths_def Let_def length_ops_flatten ops_unflatten_lengths)
  have f: "snd (flatten_add_lengths seqs pad drop_rate) (fst (fst (flatten_add_lengths seqs pad drop_rate))) = seqs"
    by (simp add: flatten_add_lengths_def Let_def ops_unflatten_flatten)
  have g: "length (fst (fst (flatten_add_lengths seqs 0 drop_rate))) = sum_list (map length seqs)"
    by (simp add: flatten_add_lengths_def Let_def length_ops_flatten)
  from a b c d e f g show ?thesis by blast
qed

theorem flatten_unflatten_round_trip_witness:
  "length [10, 20, 30 :: real] = length (fst (flatten [[1, 2], [], [3 :: real]] 0)) \<and>
   map length (snd (flatten [[1, 2], [], [3 :: real]] 0) [10, 20, 30 :: real]) = map length [[1, 2], [], [3 :: real]] \<and>
   length [0, 10, 20, 0, 0, 30, 0 :: real] = length (fst (fst (flatten_add_lengths [[1, 2], [], [3 :: real]] 1 0))) \<and>
   map length (snd (flatten_add_lengths [[1, 2], [], [3 :: real]] 1 0) [0, 10, 20, 0, 0, 30, 0 :: real])
     = map length [[1, 2], [], [3 :: real]]"
  using flatten_unflatten_round_trip [of "[10, 20, 30 :: real]" "[[1, 2], [], [3 :: real]]" 0
      1 "[0, 10, 20, 0, 0, 30, 0 :: real]"]
  by (simp add: flatten_def flatten_add_lengths_def ops_flatten_def)


subsection \<open>Concatenating layers over lists\<close>

text \<open>
  Modelled from the spec: \<^verbatim>\<open>noop\<close> of the external framework, the identity pass-through:
  the forward output is the input and the backward function returns the gradient it is
  given.
\<close>

definition noop :: "'x \<Rightarrow> real \<Rightarrow> 'x \<times> ('d \<Rightarrow> 'd)" where
  "noop X drop_rate = (X, \<lambda>D. D)"

text \<open>
  \<^verbatim>\<open>concatenate_lists\<close>. The combinators \<^verbatim>\<open>chain\<close> and \<^verbatim>\<open>concatenate\<close> of the external
  framework are parameters; \<^verbatim>\<open>wrap\<close> makes a layer of a forward function, which a layer
  is here. The keyword argument \<^verbatim>\<open>drop_factor\<close> is optional and defaults to 1.
\<close>

definition concatenate_lists_fwd ::
    "('a list list \<Rightarrow> real \<Rightarrow> 'c list \<times> ('c list \<Rightarrow> 'dx)) \<Rightarrow> real \<Rightarrow>
     'a list list \<Rightarrow> real \<Rightarrow> 'c list list \<times> ('c::zero list list \<Rightarrow> 'dx)" where
  "concatenate_lists_fwd concat_layer drop_factor Xs drop_rate =
     (let drop_rate = drop_rate * drop_factor;
          lengths = map length Xs
      in case concat_layer Xs drop_rate of
           (flat_y, bp_flat_y) \<Rightarrow>
             (let ys = ops_unflatten flat_y lengths 0;
                  concatenate_lists_bwd = (\<lambda>d_ys. bp_flat_y (ops_flatten d_ys 0))
              in (ys, concatenate_lists_bwd)))"

definition concatenate_lists ::
    "(('a list list \<Rightarrow> real \<Rightarrow> 'b list list \<times> ('b list list \<Rightarrow> 'a list list)) \<Rightarrow>
      ('b list list \<Rightarrow> real \<Rightarrow> 'b list \<times> ('b list \<Rightarrow> 'b list list)) \<Rightarrow>
      ('a list list \<Rightarrow> real \<Rightarrow> 'b list \<times> ('b list \<Rightarrow> 'a list list))) \<Rightarrow>
     (('a list list \<Rightarrow> real \<Rightarrow> 'b list \<times> ('b list \<Rightarrow> 'a list list)) list \<Rightarrow>
      ('a list list \<Rightarrow> real \<Rightarrow> 'a list \<times> ('a list \<Rightarrow> 'a list list))) \<Rightarrow>
     ('a list list \<Rightarrow> real \<Rightarrow> 'b::zero list list \<times> ('b list list \<Rightarrow> 'a list list)) list \<Rightarrow>
     real option \<Rightarrow>
     ('a::zero list list \<Rightarrow> real \<Rightarrow> 'a list list \<times> ('a list list \<Rightarrow> 'a list list))" where
  "concatenate_lists chain concatenate layers drop_factor_kw =
     (if layers = [] then noop
      else (let drop_factor = (case drop_factor_kw of None \<Rightarrow> 1 | Some f \<Rightarrow> f);
                layers = map (\<lambda>layer. chain layer flatten) layers;
                concat_layer = concatenate layers
            in concatenate_lists_fwd concat_layer drop_factor))"

text \<open>
  Claim C10. \<^verbatim>\<open>concatenate_lists\<close> called with no layers returns the no-op layer instead
  of failing: on every input batch its forward output is the input, and its backward
  function returns the gradient unchanged.
\<close>

theorem concatenate_lists_no_layers:
  "concatenate_lists chain concatenate [] drop_factor_kw = noop \<and>
   fst (concatenate_lists chain concatenate [] drop_factor_kw Xs drop_rate) = Xs \<and>
   snd (concatenate_lists chain concatenate [] drop_factor_kw Xs drop_rate) d_ys = d_ys"
  by (simp add: concatenate_lists_def noop_def)

subsection \<open>Column selection\<close>

text \<open>
  A 2-D array with its number of columns (an array without rows still has one) and its
  rows; in a well-formed array every row has that many entries.
\<close>

record array2 =
  ncols :: nat
  rows :: "real list list"

definition array2_wf :: "array2 \<Rightarrow> bool" where
  "array2_wf X \<longleftrightarrow> (\<forall>r \<in> set (rows X). length r = ncols X)"

text \<open>
  \<^verbatim>\<open>dX = ops.allocate(X.shape); dX[:, idx] += y\<close>: the gradient \<open>y\<close> has one entry per row
  of \<open>X\<close>; numpy broadcasts a single entry over all rows and raises for any other length.
\<close>

definition get_col_backward :: "nat \<Rightarrow> array2 \<Rightarrow> real list \<Rightarrow> error + array2" where
  "get_col_backward idx X y =
     (if length y = length (rows X)
      then Inr \<lparr>ncols = ncols X, rows = map (\<lambda>v. (replicate (ncols X) 0)[idx := 0 + v]) y\<rparr>
      else if length y = 1
      then Inr \<lparr>ncols = ncols X, rows = map (\<lambda>r. (replicate (ncols X) 0)[idx := 0 + hd y]) (rows X)\<rparr>
      else Inl ValueError)"

text \<open>\<^verbatim>\<open>X[:, idx]\<close> raises numpy's own \<^verbatim>\<open>IndexError\<close> when \<open>X\<close> has no column \<open>idx\<close>.\<close>

definition get_col_forward :: "nat \<Rightarrow> array2 \<Rightarrow> error + (real list \<times> (real list \<Rightarrow> error + array2))" where
  "get_col_forward idx X =
     (if idx < ncols X then Inr (map (\<lambda>r. r ! idx) (rows X), get_col_backward idx X)
      else Inl IndexError)"

definition get_col :: "int \<Rightarrow> error + (array2 \<Rightarrow> error + (real list \<times> (real list \<Rightarrow> error + array2)))" where
  "get_col idx =
     (if idx < 0 then Inl (IndexError_E066 idx)
      else Inr (get_col_forward (nat idx)))"

lemma get_col_backward_scatter:
  assumes "length y = length (rows X)" and "idx < ncols X"
  shows "\<exists>dX. get_col_backward idx X y = Inr dX \<and> ncols dX = ncols X \<and>
           length (rows dX) = length (rows X) \<and> array2_wf dX \<and>
           (\<forall>i < length (rows X). \<forall>j < ncols X. rows dX ! i ! j = (if j = idx then y ! i else 0))"
proof -
  let ?dX = "\<lparr>ncols = ncols X, rows = map (\<lambda>v. (replicate (ncols X) 0)[idx := 0 + v]) y\<rparr>"
  have "get_col_backward idx X y = Inr ?dX"
    using assms(1) by (simp add: get_col_backward_def)
  moreover have "array2_wf ?dX"
    by (auto simp: array2_wf_def)
  moreover have "\<forall>i < length (rows X). \<forall>j < ncols X. rows ?dX ! i ! j = (if j = idx then y ! i else 0)"
    using assms by (auto simp: nth_list_update)
  ultimately show ?thesis using assms(1) by auto
qed

text \<open>
  Claim C8, amended. \<^verbatim>\<open>get_col(idx)\<close> raises, and then the catalog's indexing error E066,
  if and only if \<open>idx\<close> is negative. For a non-negative \<open>idx\<close> below the number of columns
  of a 2-D array \<open>X\<close>, the forward function returns column \<open>idx\<close> of \<open>X\<close>, and its backward
  function on a gradient \<open>y\<close> with one entry per row returns an array of the shape of \<open>X\<close>
  that is zero everywhere except in column \<open>idx\<close>, which holds \<open>y\<close>. For a non-negative
  \<open>idx\<close> that is no column of \<open>X\<close>, the forward function raises the backend's
  \<^verbatim>\<open>IndexError\<close>.
\<close>

theorem get_col_error_and_columns:
  "(get_col idx = Inl (IndexError_E066 idx) \<longleftrightarrow> idx < 0) \<and>
   ((\<exists>e. get_col idx = Inl e) \<longleftrightarrow> idx < 0) \<and>
   (0 \<le> idx \<longrightarrow> get_col idx = Inr (get_col_forward (nat idx))) \<and>
   (0 \<le> idx \<and> nat idx < ncols X \<and> array2_wf X \<longrightarrow>
      (\<exists>bw. get_col_forward (nat idx) X = Inr (map (\<lambda>r. r ! nat idx) (rows X), bw) \<and>
         (length y = length (rows X) \<longrightarrow>
            (\<exists>dX. bw y = Inr dX \<and> ncols dX = ncols X \<and> length (rows dX) = length (rows X) \<and>
               array2_wf dX \<and>
               (\<forall>i < length (rows X). \<forall>j < ncols X.
                  rows dX ! i ! j = (if j = nat idx then y ! i else 0)))))) \<and>
   (0 \<le> idx \<and> ncols X \<le> nat idx \<longrightarrow> get_col_forward (nat idx) X = Inl IndexError)"
proof -
  have a: "get_col idx = Inl (IndexError_E066 idx) \<longleftrightarrow> idx < 0"
    by (simp add: get_col_def)
  have b: "(\<exists>e. get_col idx = Inl e) \<longleftrightarrow> idx < 0"
    by (simp add: get_col_def)
  have c: "0 \<le> idx \<longrightarrow> get_col idx = Inr (get_col_forward (nat idx))"
    by (simp add: get_col_def)
  have d: "0 \<le> idx \<and> nat idx < ncols X \<and> array2_wf X \<longrightarrow>
      (\<exists>bw. get_col_forward (nat idx) X = Inr (map (\<lambda>r. r ! nat idx) (rows X), bw) \<and>
         (length y = length (rows X) \<longrightarrow>
            (\<exists>dX. bw y = Inr dX \<and> ncols dX = ncols X \<and> length (rows dX) = length (rows X) \<and>
               array2_wf dX \<and>
               (\<forall>i < length (rows X). \<forall>j < ncols X.
                  rows dX ! i ! j = (if j = nat idx then y ! i else 0)))))"
    using get_col_backward_scatter [of y X "nat idx"] by (simp add: get_col_forward_def)
  have e: "0 \<le> idx \<and> ncols X \<le> nat idx \<longrightarrow> get_col_forward (nat idx) X = Inl IndexError"
    by (simp add: get_col_forward_def)
  from a b c d e show ?thesis by blast
qed

theorem get_col_error_and_columns_witness:
  "(-1 :: int) < 0 \<and> get_col (-1) = Inl (IndexError_E066 (-1)) \<and>
   (0 :: int) \<le> 1 \<and> nat 1 < ncols \<lparr>ncols = 2, rows = [[1, 2], [3, 4]]\<rparr> \<and>
   array2_wf \<lparr>ncols = 2, rows = [[1, 2], [3, 4]]\<rparr> \<and>
   length [5, 6 :: real] = length (rows \<lparr>ncols = 2, rows = [[1, 2], [3, 4]]\<rparr>) \<and>
   map_sum id fst (get_col_forward (nat 1) \<lparr>ncols = 2, rows = [[1, 2], [3, 4]]\<rparr>) = Inr [2, 4] \<and>
   get_col_backward (nat 1) \<lparr>ncols = 2, rows = [[1, 2], [3, 4]]\<rparr> [5, 6]
     = Inr \<lparr>ncols = 2, rows = [[0, 5], [0, 6]]\<rparr> \<and>
   (0 :: int) \<le> 2 \<and> ncols \<lparr>ncols = 2, rows = [[1, 2], [3, 4]]\<rparr> \<le> nat 2 \<and>
   get_col_forward (nat 2) \<lparr>ncols = 2, rows = [[1, 2], [3, 4]]\<rparr> = Inl IndexError"
  using get_col_error_and_columns [of "-1" "\<lparr>ncols = 2, rows = [[1, 2], [3, 4]]\<rparr>" "[5, 6]"]
        get_col_error_and_columns [of 1 "\<lparr>ncols = 2, rows = [[1, 2], [3, 4]]\<rparr>" "[5, 6]"]
        get_col_error_and_columns [of 2 "\<lparr>ncols = 2, rows = [[1, 2], [3, 4]]\<rparr>" "[5, 6]"]
  by (simp add: array2_wf_def get_col_forward_def get_col_backward_def numeral_2_eq_2)

text \<open>
  The claim as stated fails for a non-negative index beyond the columns: \<^verbatim>\<open>get_col(2)\<close>
  returns a layer, whose forward function on an array of two columns raises an indexing
  error instead of returning a column.
\<close>

theorem get_col_out_of_range_counterexample:
  "(0 :: int) \<le> 2 \<and> get_col 2 = Inr (get_col_forward 2) \<and>
   get_col_forward 2 \<lparr>ncols = 2, rows = [[1, 2], [3, 4]]\<rparr> = Inl IndexError"
  by (simp add: get_col_def get_col_forward_def)

subsection \<open>The weight-shared projection layer\<close>

text \<open>
  Shapes of nested lists. The layer keeps its dimensions, its parameters \<open>W\<close> of shape
  \<open>(nF, nO, nP, nI)\<close>, \<open>b\<close> of shape \<open>(nO, nP)\<close> and \<open>pad\<close> of shape \<open>(1, nF, nO, nP)\<close>,
  and a gradient of the same shape for each.
\<close>

definition is_matrix :: "nat \<Rightarrow> nat \<Rightarrow> 'a list list \<Rightarrow> bool" where
  "is_matrix r c M \<longleftrightarrow> length M = r \<and> (\<forall>x \<in> set M. length x = c)"

definition is_tensor3 :: "nat \<Rightarrow> nat \<Rightarrow> nat \<Rightarrow> 'a list list list \<Rightarrow> bool" where
  "is_tensor3 a r c T \<longleftrightarrow> length T = a \<and> (\<forall>M \<in> set T. is_matrix r c M)"

definition is_tensor4 :: "nat \<Rightarrow> nat \<Rightarrow> nat \<Rightarrow> nat \<Rightarrow> 'a list list list list \<Rightarrow> bool" where
  "is_tensor4 a0 a r c T \<longleftrightarrow> length T = a0 \<and> (\<forall>U \<in> set T. is_tensor3 a r c U)"

record PrecomputableAffine =
  nO :: nat
  nP :: nat
  nI :: nat
  nF :: nat
  pa_W :: "real list list list list"
  pa_b :: "real list list"
  pa_pad :: "real list list list list"
  d_W :: "real list list list list"
  d_pad :: "real list list list list"
  d_b :: "real list list"

text \<open>
  Array operations of the backend on row-major data: a reshape of a flat list into \<open>r\<close> rows
  of \<open>c\<close> entries, and the matrix products \<open>A B\<^sup>T\<close> (\<^verbatim>\<open>trans2\<close>), \<open>A B\<close> and \<open>A\<^sup>T B\<close>
  (\<^verbatim>\<open>trans1\<close>), the last two with the numbers of columns of their results.
\<close>

definition reshape2 :: "nat \<Rightarrow> nat \<Rightarrow> 'a list \<Rightarrow> 'a list list" where
  "reshape2 r c xs = map (\<lambda>i. take c (drop (i * c) xs)) [0..<r]"

definition gemm_trans2 :: "real list list \<Rightarrow> real list list \<Rightarrow> real list list" where
  "gemm_trans2 A B = map (\<lambda>x. map (\<lambda>w. sum_list (map2 (*) x w)) B) A"

definition gemm :: "nat \<Rightarrow> real list list \<Rightarrow> real list list \<Rightarrow> real list list" where
  "gemm m A B = map (\<lambda>x. map (\<lambda>j. sum_list (map2 (\<lambda>v row. v * row ! j) x B)) [0..<m]) A"

definition gemm_trans1 :: "nat \<Rightarrow> nat \<Rightarrow> real list list \<Rightarrow> real list list \<Rightarrow> real list list" where
  "gemm_trans1 k m A B =
     map (\<lambda>i. map (\<lambda>j. sum_list (map2 (\<lambda>x y. x ! i * y ! j) A B)) [0..<m]) [0..<k]"

definition add_matrix :: "real list list \<Rightarrow> real list list \<Rightarrow> real list list" where
  "add_matrix A B = map2 (map2 (+)) A B"

text \<open>\<^verbatim>\<open>T.sum(axis=0)\<close> of a stack of \<open>r\<close> by \<open>c\<close> matrices.\<close>

definition sum_axis0 :: "nat \<Rightarrow> nat \<Rightarrow> real list list list \<Rightarrow> real list list" where
  "sum_axis0 r c T = foldr add_matrix T (replicate r (replicate c 0))"

definition add_padding :: "PrecomputableAffine \<Rightarrow> real list list list list \<Rightarrow> real list list list list" where
  "add_padding self Yf = pa_pad self @ Yf"

text \<open>
  The forward pass of \<^verbatim>\<open>begin_update\<close>. The product raises when the rows of \<open>X\<close> have
  not \<open>nI\<close> entries.
\<close>

definition begin_update_forward :: "PrecomputableAffine \<Rightarrow> real list list \<Rightarrow> error + real list list list list" where
  "begin_update_forward self X =
     (if \<forall>x \<in> set X. length x = nI self
      then (let Yf = gemm_trans2 X
                       (reshape2 (nF self * nO self * nP self) (nI self) (concat (concat (concat (pa_W self)))));
                Yf = map (\<lambda>y. map (reshape2 (nO self) (nP self)) (reshape2 (nF self) (nO self * nP self) y)) Yf
            in Inr (add_padding self Yf))
      else Inl ValueError)"

text \<open>
  \<^verbatim>\<open>_backprop_padding\<close>: the mask \<^verbatim>\<open>ids < 0\<close> is summed along each row of \<open>ids\<close>, the
  gradient \<open>dY\<close> of shape \<open>(nN, nO, nP)\<close> is scaled row by row with these counts and summed
  over the rows, and the \<open>(nO, nP)\<close> sum is added to \<open>d_pad\<close>, which broadcasts it to each
  of the \<open>nF\<close> slots. Shapes other than \<open>(nN, nO, nP)\<close> for \<open>dY\<close> and \<open>nN\<close> rows for \<open>ids\<close>
  are rejected.
\<close>

definition backprop_padding :: "PrecomputableAffine \<Rightarrow> real list list list \<Rightarrow> int list list \<Rightarrow>
    error + (PrecomputableAffine \<times> real list list list \<times> int list list)" where
  "backprop_padding self dY ids =
     (if is_tensor3 (length ids) (nO self) (nP self) dY
      then (let msk = map (map (\<lambda>i. i < 0)) ids;
                msk = map (\<lambda>row. length (filter id row)) msk;
                d_pad' = map2 (\<lambda>g m. map (map (\<lambda>x. x * real m)) g) dY msk;
                s = sum_axis0 (nO self) (nP self) d_pad'
            in Inr (self\<lparr>d_pad := map (map (\<lambda>slot. add_matrix slot s)) (d_pad self)\<rparr>, dY, ids))
      else Inl ValueError)"

text \<open>\<^verbatim>\<open>X[ids]\<close>: a negative index counts from the end, an index out of bounds raises.\<close>

definition gather :: "real list list \<Rightarrow> int list list \<Rightarrow> error + real list list list" where
  "gather X ids =
     (if \<forall>row \<in> set ids. \<forall>i \<in> set row. - int (length X) \<le> i \<and> i < int (length X)
      then Inr (map (map (\<lambda>i. X ! nat (if i < 0 then i + int (length X) else i))) ids)
      else Inl IndexError)"

text \<open>
  The backward function returned by \<^verbatim>\<open>begin_update\<close>, with the layer before and after.
  The optimizer \<open>sgd\<close> is optional; it acts on the parameters and gradients of the layer.
\<close>

definition backward :: "PrecomputableAffine \<Rightarrow> real list list \<Rightarrow>
    (PrecomputableAffine \<Rightarrow> PrecomputableAffine) option \<Rightarrow> real list list list \<Rightarrow> int list list \<Rightarrow>
    error + (PrecomputableAffine \<times> real list list list)" where
  "backward self X sgd dY ids =
     (case backprop_padding self dY ids of
        Inl e \<Rightarrow> Inl e
      | Inr (self, dY, ids) \<Rightarrow>
          (case gather X ids of
             Inl e \<Rightarrow> Inl e
           | Inr Xf \<Rightarrow>
               if is_matrix (length ids) (nF self) ids \<and> (\<forall>x \<in> set X. length x = nI self)
               then (let Xf = map concat Xf;
                         self = self\<lparr>d_b := add_matrix (d_b self) (sum_axis0 (nO self) (nP self) dY)\<rparr>;
                         dY = map concat dY;
                         Wopfi = map (\<lambda>k. concat (map (\<lambda>f. pa_W self ! f ! (k div nP self) ! (k mod nP self))
                                                      [0..<nF self]))
                                     [0..<nO self * nP self];
                         dXf = gemm (nF self * nI self) dY Wopfi;
                         dWopfi = gemm_trans1 (nO self * nP self) (nF self * nI self) dY Xf;
                         dWopfi = map (map (reshape2 (nF self) (nI self)))
                                      (reshape2 (nO self) (nP self) dWopfi);
                         self = self\<lparr>d_W := map (\<lambda>f. map (\<lambda>out. map (\<lambda>p.
                                    map2 (+) (d_W self ! f ! out ! p) (dWopfi ! out ! p ! f))
                                    [0..<nP self]) [0..<nO self]) [0..<nF self]\<rparr>;
                         self = (case sgd of None \<Rightarrow> self | Some update \<Rightarrow> update self)
                     in Inr (self, map (reshape2 (nF self) (nI self)) dXf))
               else Inl ValueError))"

text \<open>
  The increment of the pad gradient as the comment of \<^verbatim>\<open>_backprop_padding\<close> and the spec
  state it, for comparison with the code: slot \<open>f\<close> of \<open>d_pad\<close> receives the incoming
  gradients of the rows \<open>n\<close> with \<open>ids[n, f] < 0\<close>.
\<close>

definition spec_pad_increment :: "real list list list \<Rightarrow> int list list \<Rightarrow> nat \<Rightarrow> nat \<Rightarrow> nat \<Rightarrow> real" where
  "spec_pad_increment dY ids f out p =
     sum_list (map (\<lambda>n. if ids ! n ! f < 0 then dY ! n ! out ! p else 0) [0..<length ids])"

lemma reshape2_concat: "is_matrix r c M \<Longrightarrow> reshape2 r c (concat M) = M"
proof (induction M arbitrary: r)
  case Nil
  then show ?case by (simp add: reshape2_def is_matrix_def)
next
  case (Cons x M)
  then obtain r' where r: "r = Suc r'" and m: "is_matrix r' c M" and x: "length x = c"
    by (cases r) (auto simp: is_matrix_def)
  have "reshape2 (Suc r') c (x @ concat M) = x # reshape2 r' c (concat M)"
    unfolding reshape2_def upt_conv_Cons [OF zero_less_Suc] map_Suc_upt [symmetric]
    using x by (simp add: o_def)
  with Cons.IH [OF m] r show ?case by simp
qed

lemma length_concat_matrix: "is_matrix r c M \<Longrightarrow> length (concat M) = r * c"
  by (induction M arbitrary: r) (auto simp: is_matrix_def)

lemma is_matrix_concat: "is_tensor3 a r c T \<Longrightarrow> is_matrix (a * r) c (concat T)"
  by (induction T arbitrary: a) (auto simp: is_tensor3_def is_matrix_def)

lemma is_tensor3_concat: "is_tensor4 a0 a r c T \<Longrightarrow> is_tensor3 (a0 * a) r c (concat T)"
  by (induction T arbitrary: a0) (auto simp: is_tensor4_def is_tensor3_def)

lemma is_matrix_map_concat: "is_tensor3 a r c T \<Longrightarrow> is_matrix a (r * c) (map concat T)"
  by (auto simp: is_tensor3_def is_matrix_def length_concat_matrix)

lemma reshape3_concat:
  assumes "is_tensor3 a r c T"
  shows "map (reshape2 r c) (reshape2 a (r * c) (concat (concat T))) = T"
proof -
  have "concat (concat T) = concat (map concat T)"
    by (induction T) simp_all
  then have "reshape2 a (r * c) (concat (concat T)) = map concat T"
    using reshape2_concat [OF is_matrix_map_concat [OF assms]] by simp
  moreover have "map (reshape2 r c) (map concat T) = T"
    using assms by (auto simp: is_tensor3_def reshape2_concat intro: map_idI)
  ultimately show ?thesis by simp
qed

lemma is_tensor3_map4: "is_tensor4 a r c d T \<Longrightarrow> is_tensor3 a r c (map (map (map g)) T)"
  by (auto simp: is_tensor4_def is_tensor3_def is_matrix_def)

lemma begin_update_forward_eq:
  assumes W: "is_tensor4 (nF self) (nO self) (nP self) (nI self) (pa_W self)"
    and X: "is_matrix batch (nI self) X"
  shows "begin_update_forward self X =
           Inr (pa_pad self @ map (\<lambda>x. map (map (map (\<lambda>w. sum_list (map2 (*) x w)))) (pa_W self)) X)"
proof -
  let ?g = "\<lambda>x w. sum_list (map2 (*) x (w :: real list))"
  have Wr: "reshape2 (nF self * nO self * nP self) (nI self) (concat (concat (concat (pa_W self))))
              = concat (concat (pa_W self))"
    using reshape2_concat [OF is_matrix_concat [OF is_tensor3_concat [OF W]]] .
  have row: "map (reshape2 (nO self) (nP self))
               (reshape2 (nF self) (nO self * nP self) (map (?g x) (concat (concat (pa_W self)))))
             = map (map (map (?g x))) (pa_W self)" for x
  proof -
    have "map (?g x) (concat (concat (pa_W self))) = concat (concat (map (map (map (?g x))) (pa_W self)))"
      by (simp add: map_concat o_def)
    then show ?thesis
      using reshape3_concat [OF is_tensor3_map4 [OF W, of "?g x"]] by simp
  qed
  have "\<forall>x \<in> set X. length x = nI self"
    using X by (simp add: is_matrix_def)
  then show ?thesis
    by (simp add: begin_update_forward_def Let_def Wr gemm_trans2_def add_padding_def row o_def)
qed

text \<open>
  Claim C2. For every input \<open>X\<close> of shape \<open>(batch, nI)\<close>, the layer's parameters having
  their declared shapes, the forward pass returns an array of shape
  \<open>(batch + 1, nF, nO, nP)\<close>: its first row is the pad parameter, exactly one row is
  prepended, and entry \<open>(n + 1, f, o, p)\<close> is the product of row \<open>n\<close> of \<open>X\<close> with
  \<open>W[f, o, p]\<close>.
\<close>

theorem begin_update_prepends_one_pad_row:
  assumes "is_tensor4 (nF self) (nO self) (nP self) (nI self) (pa_W self)"
    and "is_tensor4 1 (nF self) (nO self) (nP self) (pa_pad self)"
    and "is_matrix batch (nI self) X"
  shows "\<exists>Y. begin_update_forward self X = Inr Y \<and>
           is_tensor4 (batch + 1) (nF self) (nO self) (nP self) Y \<and>
           take 1 Y = pa_pad self \<and>
           Y ! 0 = pa_pad self ! 0 \<and>
           (\<forall>n < batch. \<forall>f < nF self. \<forall>out < nO self. \<forall>p < nP self.
              Y ! (n + 1) ! f ! out ! p = sum_list (map2 (*) (X ! n) (pa_W self ! f ! out ! p)))"
proof -
  let ?g = "\<lambda>x w. sum_list (map2 (*) x (w :: real list))"
  let ?Yf = "map (\<lambda>x. map (map (map (?g x))) (pa_W self)) X"
  let ?Y = "pa_pad self @ ?Yf"
  have lp: "length (pa_pad self) = 1"
    using assms(2) by (simp add: is_tensor4_def)
  have lx: "length X = batch"
    using assms(3) by (simp add: is_matrix_def)
  have eq: "begin_update_forward self X = Inr ?Y"
    using assms(1,3) by (rule begin_update_forward_eq)
  have sh: "is_tensor4 (batch + 1) (nF self) (nO self) (nP self) ?Y"
    using assms(2) lx is_tensor3_map4 [OF assms(1)] by (auto simp: is_tensor4_def)
  have tk: "take 1 ?Y = pa_pad self"
    using lp by simp
  have hd: "?Y ! 0 = pa_pad self ! 0"
    using lp by (simp add: nth_append)
  have el: "\<forall>n < batch. \<forall>f < nF self. \<forall>out < nO self. \<forall>p < nP self.
              ?Y ! (n + 1) ! f ! out ! p = sum_list (map2 (*) (X ! n) (pa_W self ! f ! out ! p))"
  proof (intro allI impI)
    fix n f out p
    assume n: "n < batch" and f: "f < nF self" and out: "out < nO self" and p: "p < nP self"
    from assms(1) f have Wf: "length (pa_W self) = nF self" "is_tensor3 (nO self) (nP self) (nI self) (pa_W self ! f)"
      by (auto simp: is_tensor4_def)
    with out have Wo: "length (pa_W self ! f) = nO self" "is_matrix (nP self) (nI self) (pa_W self ! f ! out)"
      by (auto simp: is_tensor3_def)
    then have Wp: "length (pa_W self ! f ! out) = nP self"
      by (simp add: is_matrix_def)
    have "?Y ! (n + 1) = ?Yf ! n"
      using lp by (simp add: nth_append)
    then show "?Y ! (n + 1) ! f ! out ! p = sum_list (map2 (*) (X ! n) (pa_W self ! f ! out ! p))"
      using n f out p lx Wf Wo Wp by simp
  qed
  from eq sh tk hd el show ?thesis by blast
qed

theorem begin_update_prepends_one_pad_row_witness:
  "is_tensor4 1 1 2 2 [[[[1, 0], [0, 1 :: real]]]] \<and>
   is_tensor4 1 1 1 2 [[[[7, 8 :: real]]]] \<and>
   is_matrix 1 2 [[3, 4 :: real]] \<and>
   begin_update_forward
     \<lparr>nO = 1, nP = 2, nI = 2, nF = 1, pa_W = [[[[1, 0], [0, 1]]]], pa_b = [[0, 0]],
      pa_pad = [[[[7, 8]]]], d_W = [[[[0, 0], [0, 0]]]], d_pad = [[[[0, 0]]]], d_b = [[0, 0]]\<rparr>
     [[3, 4]] = Inr [[[[7, 8]]], [[[3, 4]]]]"
proof -
  let ?self = "\<lparr>nO = 1, nP = 2, nI = 2, nF = 1, pa_W = [[[[1, 0], [0, 1 :: real]]]], pa_b = [[0, 0]],
      pa_pad = [[[[7, 8]]]], d_W = [[[[0, 0], [0, 0]]]], d_pad = [[[[0, 0]]]], d_b = [[0, 0]]\<rparr>"
  have h1: "is_tensor4 (nF ?self) (nO ?self) (nP ?self) (nI ?self) (pa_W ?self)"
    by (simp add: is_tensor4_def is_tensor3_def is_matrix_def)
  have h2: "is_tensor4 1 (nF ?self) (nO ?self) (nP ?self) (pa_pad ?self)"
    by (simp add: is_tensor4_def is_tensor3_def is_matrix_def)
  have h3: "is_matrix 1 (nI ?self) [[3, 4 :: real]]"
    by (simp add: is_matrix_def)
  from begin_update_prepends_one_pad_row [OF h1 h2 h3]
  obtain Y where Y: "begin_update_forward ?self [[3, 4]] = Inr Y"
    and sh: "is_tensor4 (1 + 1) (nF ?self) (nO ?self) (nP ?self) Y"
    and tk: "take 1 Y = pa_pad ?self"
    and el: "\<forall>n < 1. \<forall>f < nF ?self. \<forall>out < nO ?self. \<forall>p < nP ?self.
              Y ! (n + 1) ! f ! out ! p = sum_list (map2 (*) ([[3, 4]] ! n) (pa_W ?self ! f ! out ! p))"
    by auto
  have "begin_update_forward ?self [[3, 4]] = Inr [[[[7, 8]]], [[[3, 4]]]]"
    by (simp add: begin_update_forward_def Let_def gemm_trans2_def reshape2_def add_padding_def upt_rec)
  with h1 h2 h3 show ?thesis by simp
qed

lemma is_matrix_add_matrix:
  "is_matrix r c A \<Longrightarrow> is_matrix r c B \<Longrightarrow> is_matrix r c (add_matrix A B)"
  by (auto simp: is_matrix_def add_matrix_def set_zip)

lemma add_matrix_nth:
  "is_matrix r c A \<Longrightarrow> is_matrix r c B \<Longrightarrow> i < r \<Longrightarrow> j < c \<Longrightarrow>
   add_matrix A B ! i ! j = A ! i ! j + B ! i ! j"
  by (auto simp: is_matrix_def add_matrix_def)

lemma sum_axis0_shape: "is_tensor3 n r c T \<Longrightarrow> is_matrix r c (sum_axis0 r c T)"
proof (induction T arbitrary: n)
  case Nil
  then show ?case by (simp add: sum_axis0_def is_matrix_def)
next
  case (Cons M T)
  then have "is_matrix r c M" and "is_tensor3 (length T) r c T"
    by (auto simp: is_tensor3_def)
  with Cons.IH [of "length T"] show ?case
    by (simp add: sum_axis0_def is_matrix_add_matrix)
qed

lemma sum_axis0_nth:
  "is_tensor3 n r c T \<Longrightarrow> i < r \<Longrightarrow> j < c \<Longrightarrow>
   sum_axis0 r c T ! i ! j = sum_list (map (\<lambda>M. M ! i ! j) T)"
proof (induction T arbitrary: n)
  case Nil
  then show ?case by (simp add: sum_axis0_def)
next
  case (Cons M T)
  then have M: "is_matrix r c M" and T: "is_tensor3 (length T) r c T"
    by (auto simp: is_tensor3_def)
  have "sum_axis0 r c (M # T) = add_matrix M (sum_axis0 r c T)"
    by (simp add: sum_axis0_def)
  then show ?case
    using add_matrix_nth [OF M sum_axis0_shape [OF T] Cons.prems(2,3)] Cons.IH [OF T Cons.prems(2,3)]
    by simp
qed

lemma backprop_padding_increment:
  assumes dY: "is_tensor3 (length ids) (nO self) (nP self) dY"
    and dp: "is_tensor4 1 (nF self) (nO self) (nP self) (d_pad self)"
    and f: "f < nF self" and out: "out < nO self" and p: "p < nP self"
  shows "\<exists>self'. backprop_padding self dY ids = Inr (self', dY, ids) \<and>
           d_pad self' ! 0 ! f ! out ! p =
             d_pad self ! 0 ! f ! out ! p +
             sum_list (map (\<lambda>n. real (length (filter (\<lambda>i. i < 0) (ids ! n))) * dY ! n ! out ! p)
                           [0..<length ids])"
proof -
  let ?cnt = "map (\<lambda>row. length (filter id row)) (map (map (\<lambda>i. i < 0)) ids)"
  let ?T = "map2 (\<lambda>g m. map (map (\<lambda>x. x * real m)) g) dY ?cnt"
  let ?s = "sum_axis0 (nO self) (nP self) ?T"
  let ?self' = "self\<lparr>d_pad := map (map (\<lambda>slot. add_matrix slot ?s)) (d_pad self)\<rparr>"
  have ldY: "length dY = length ids"
    using dY by (simp add: is_tensor3_def)
  have eq: "backprop_padding self dY ids = Inr (?self', dY, ids)"
    using dY by (simp add: backprop_padding_def Let_def)
  have T: "is_tensor3 (length ids) (nO self) (nP self) ?T"
    using dY by (auto simp: is_tensor3_def is_matrix_def set_zip) (metis nth_mem)
  have cnt: "length (filter id (map (\<lambda>i. i < 0) row)) = length (filter (\<lambda>i. i < 0) row)" for row :: "int list"
    by (induction row) simp_all
  have Tn: "?T ! n ! out ! p = real (length (filter (\<lambda>i. i < 0) (ids ! n))) * dY ! n ! out ! p"
    if "n < length ids" for n
  proof -
    from that dY have "is_matrix (nO self) (nP self) (dY ! n)"
      by (auto simp: is_tensor3_def)
    with out p have "length (dY ! n) = nO self" "length (dY ! n ! out) = nP self"
      by (auto simp: is_matrix_def)
    with that ldY out p show ?thesis by (simp add: cnt)
  qed
  have s: "?s ! out ! p = sum_list (map (\<lambda>M. M ! out ! p) ?T)"
    using T out p by (rule sum_axis0_nth)
  have lT: "length ?T = length ids"
    using ldY by simp
  have "map (\<lambda>M. M ! out ! p) ?T = map (\<lambda>n. ?T ! n ! out ! p) [0..<length ids]"
    using lT by (intro nth_equalityI) simp_all
  also have "\<dots> = map (\<lambda>n. real (length (filter (\<lambda>i. i < 0) (ids ! n))) * dY ! n ! out ! p) [0..<length ids]"
    using Tn by (intro map_cong) simp_all
  finally have s': "?s ! out ! p =
      sum_list (map (\<lambda>n. real (length (filter (\<lambda>i. i < 0) (ids ! n))) * dY ! n ! out ! p) [0..<length ids])"
    using s by simp
  from dp have l0: "length (d_pad self) = 1" and t3: "is_tensor3 (nF self) (nO self) (nP self) (d_pad self ! 0)"
    by (auto simp: is_tensor4_def)
  from t3 f have lf: "length (d_pad self ! 0) = nF self" and m: "is_matrix (nO self) (nP self) (d_pad self ! 0 ! f)"
    by (auto simp: is_tensor3_def)
  have "d_pad ?self' ! 0 ! f ! out ! p = add_matrix (d_pad self ! 0 ! f) ?s ! out ! p"
    using l0 lf f by simp
  also have "\<dots> = d_pad self ! 0 ! f ! out ! p + ?s ! out ! p"
    using m sum_axis0_shape [OF T] out p by (rule add_matrix_nth)
  finally show ?thesis using eq s' by auto
qed

text \<open>
  Claim C1. The claim is that a call of the backward function adds to the pad gradient the
  incoming gradients at exactly the negative positions of \<open>ids\<close> and nothing else, slot
  \<open>f\<close> of \<open>d_pad\<close> receiving the gradients of the rows \<open>n\<close> with \<open>ids[n, f] < 0\<close>, as the
  comment of \<^verbatim>\<open>_backprop_padding\<close> has it. The code does otherwise: without an optimizer,
  every entry \<open>(0, f, o, p)\<close> of \<open>d_pad\<close>, whatever \<open>f\<close>, grows by the sum over the rows \<open>n\<close>
  of \<open>dY[n, o, p]\<close> times the number of negative entries in row \<open>n\<close> of \<open>ids\<close>.
\<close>

theorem backward_pad_gradient_counts_rows:
  assumes dY: "is_tensor3 (length ids) (nO self) (nP self) dY"
    and dp: "is_tensor4 1 (nF self) (nO self) (nP self) (d_pad self)"
    and ids: "is_matrix (length ids) (nF self) ids"
    and X: "is_matrix (length X) (nI self) X"
    and rng: "gather X ids \<noteq> Inl IndexError"
    and f: "f < nF self" and out: "out < nO self" and p: "p < nP self"
  shows "\<exists>self' dX. backward self X None dY ids = Inr (self', dX) \<and>
           d_pad self' ! 0 ! f ! out ! p =
             d_pad self ! 0 ! f ! out ! p +
             sum_list (map (\<lambda>n. real (length (filter (\<lambda>i. i < 0) (ids ! n))) * dY ! n ! out ! p)
                           [0..<length ids])"
proof -
  from backprop_padding_increment [OF dY dp f out p] obtain self1 where
    bp: "backprop_padding self dY ids = Inr (self1, dY, ids)"
    and inc: "d_pad self1 ! 0 ! f ! out ! p =
             d_pad self ! 0 ! f ! out ! p +
             sum_list (map (\<lambda>n. real (length (filter (\<lambda>i. i < 0) (ids ! n))) * dY ! n ! out ! p)
                           [0..<length ids])"
    by blast
  from bp dY have dims: "nF self1 = nF self" "nI self1 = nI self" "nO self1 = nO self" "nP self1 = nP self"
    by (auto simp: backprop_padding_def Let_def)
  from rng obtain Xf where g: "gather X ids = Inr Xf"
    by (auto simp: gather_def split: if_splits)
  have guard: "is_matrix (length ids) (nF self1) ids \<and> (\<forall>x \<in> set X. length x = nI self1)"
    using ids X dims by (simp add: is_matrix_def)
  obtain self2 dX where r: "backward self X None dY ids = Inr (self2, dX)" and d: "d_pad self2 = d_pad self1"
    using bp g guard by (simp add: backward_def Let_def)
  with inc show ?thesis by auto
qed

text \<open>
  With two features, one row of gradient 1 and \<open>ids = [[-1, 0]]\<close>, both slots of \<open>d_pad\<close>
  receive 1, although \<open>ids[0, 1]\<close> is not negative: the increment stated for slot 0 is 1
  and for slot 1 is 0.
\<close>

theorem backward_pad_gradient_counts_rows_witness:
  "is_tensor3 (length [[-1, 0 :: int]]) 1 1 [[[1 :: real]]] \<and>
   is_tensor4 1 2 1 1 [[[[0 :: real]], [[0]]]] \<and>
   is_matrix (length [[-1, 0 :: int]]) 2 [[-1, 0 :: int]] \<and>
   is_matrix (length [[5 :: real]]) 1 [[5 :: real]] \<and>
   gather [[5]] [[-1, 0]] \<noteq> Inl IndexError \<and>
   map_sum id (d_pad \<circ> fst)
     (backward
        \<lparr>nO = 1, nP = 1, nI = 1, nF = 2, pa_W = [[[[1]]], [[[1]]]], pa_b = [[0]],
         pa_pad = [[[[0]], [[0]]]], d_W = [[[[0]]], [[[0]]]], d_pad = [[[[0]], [[0]]]], d_b = [[0]]\<rparr>
        [[5]] None [[[1]]] [[-1, 0]])
     = Inr [[[[1]], [[1]]]] \<and>
   spec_pad_increment [[[1]]] [[-1, 0]] 0 0 0 = 1 \<and>
   spec_pad_increment [[[1]]] [[-1, 0]] 1 0 0 = 0"
proof -
  let ?self = "\<lparr>nO = 1, nP = 1, nI = 1, nF = 2, pa_W = [[[[1 :: real]]], [[[1]]]], pa_b = [[0]],
         pa_pad = [[[[0]], [[0]]]], d_W = [[[[0]]], [[[0]]]], d_pad = [[[[0]], [[0]]]], d_b = [[0]]\<rparr>"
  let ?ids = "[[-1, 0 :: int]]"
  let ?dY = "[[[1 :: real]]]"
  let ?X = "[[5 :: real]]"
  have h1: "is_tensor3 (length ?ids) (nO ?self) (nP ?self) ?dY"
    by (simp add: is_tensor3_def is_matrix_def)
  have h2: "is_tensor4 1 (nF ?self) (nO ?self) (nP ?self) (d_pad ?self)"
    by (simp add: is_tensor4_def is_tensor3_def is_matrix_def)
  have h3: "is_matrix (length ?ids) (nF ?self) ?ids"
    by (simp add: is_matrix_def)
  have h4: "is_matrix (length ?X) (nI ?self) ?X"
    by (simp add: is_matrix_def)
  have h5: "gather ?X ?ids \<noteq> Inl IndexError"
    by (simp add: gather_def)
  have f: "1 < nF ?self" and z: "0 < nO ?self" "0 < nP ?self"
    by simp_all
  from backward_pad_gradient_counts_rows [OF h1 h2 h3 h4 h5 f z]
  obtain self' dX where r: "backward ?self ?X None ?dY ?ids = Inr (self', dX)"
    and s1: "d_pad self' ! 0 ! 1 ! 0 ! 0 = 1"
    by auto
  have e: "map_sum id (d_pad \<circ> fst) (backward ?self ?X None ?dY ?ids) = Inr [[[[1]], [[1]]]]"
    by (simp add: backward_def backprop_padding_def gather_def Let_def is_tensor3_def is_matrix_def
        sum_axis0_def add_matrix_def)
  have sp: "spec_pad_increment ?dY ?ids 0 0 0 = 1" "spec_pad_increment ?dY ?ids 1 0 0 = 0"
    by (simp_all add: spec_pad_increment_def)
  from h1 h2 h3 h4 h5 e sp r s1 show ?thesis by simp
qed

end
